theory Spec2Isabelle
  imports Complex_Main "HOL-Library.Sublist"
begin

section \<open>Python strings\<close>

text \<open>
  A Python \<open>str\<close> is modelled as a \<open>string\<close>, one \<open>char\<close> per character. The texts the
  program itself contains are ASCII, apart from one typographic apostrophe in the canned
  answer for illegal requests, which is written as its three UTF-8 bytes. \<open>str.lower\<close> is
  the ASCII lowering of each character and \<open>\w\<close> is the ASCII class
  \<open>[A-Za-z0-9_]\<close>: every other character is caseless and not a word character.
\<close>

definition lower_char :: "char \<Rightarrow> char" where
  "lower_char c =
     (case map_of (zip ''ABCDEFGHIJKLMNOPQRSTUVWXYZ'' ''abcdefghijklmnopqrstuvwxyz'') c of
        Some d \<Rightarrow> d
      | None \<Rightarrow> c)"

definition lower :: "string \<Rightarrow> string" where
  "lower s = map lower_char s"

text \<open>\<open>d in s\<close>: the string \<open>d\<close> occurs in \<open>s\<close> at some position.\<close>

fun py_in :: "string \<Rightarrow> string \<Rightarrow> bool" where
  "py_in d [] = (d = [])"
| "py_in d (c # cs) = (prefix d (c # cs) \<or> py_in d cs)"

text \<open>The positions at which \<open>d\<close> occurs in \<open>s\<close>, overlapping occurrences included.\<close>

definition occurrences :: "string \<Rightarrow> string \<Rightarrow> nat list" where
  "occurrences d s = filter (\<lambda>i. prefix d (drop i s)) [0..<Suc (length s)]"

definition is_word :: "char \<Rightarrow> bool" where
  "is_word c = (c \<in> set ''abcdefghijklmnopqrstuvwxyzABCDEFGHIJKLMNOPQRSTUVWXYZ0123456789_'')"

section \<open>The regular expressions of safety.py\<close>

text \<open>
  The patterns of \<open>safety.py\<close> use literals, the word boundary \<open>\b\<close>, \<open>.*\<close> (any run of
  characters other than a newline), alternation and concatenation. \<open>ends r t i\<close> lists the
  positions at which a match of \<open>r\<close> that starts at position \<open>i\<close> of \<open>t\<close> can end, and
  \<open>re_search\<close> is \<open>re.search(p, t)\<close> read as a truth value.
\<close>

datatype regex = Lit string | Boundary | DotStar | Alt "regex list" | Seq "regex list"

definition is_boundary :: "string \<Rightarrow> nat \<Rightarrow> bool" where
  "is_boundary t i =
     ((0 < i \<and> i \<le> length t \<and> is_word (t ! (i - 1))) \<noteq> (i < length t \<and> is_word (t ! i)))"

fun ends :: "regex \<Rightarrow> string \<Rightarrow> nat \<Rightarrow> nat list" where
  "ends (Lit s) t i = (if prefix s (drop i t) then [i + length s] else [])"
| "ends Boundary t i = (if is_boundary t i then [i] else [])"
| "ends DotStar t i =
     map (\<lambda>n. i + n) [0..<Suc (length (takeWhile (\<lambda>c. c \<noteq> CHR 0x0A) (drop i t)))]"
| "ends (Alt rs) t i = concat (map (\<lambda>r. ends r t i) rs)"
| "ends (Seq []) t i = [i]"
| "ends (Seq (r # rs)) t i = concat (map (\<lambda>j. ends (Seq rs) t j) (ends r t i))"

definition re_search :: "regex \<Rightarrow> string \<Rightarrow> bool" where
  "re_search p t = list_ex (\<lambda>i. ends p t i \<noteq> []) [0..<Suc (length t)]"

text \<open>\<open>\bw\b\<close> for a literal \<open>w\<close>.\<close>

definition word :: "string \<Rightarrow> regex" where
  "word w = Seq [Boundary, Lit w, Boundary]"

section \<open>safety.py\<close>

definition ILLEGAL :: "regex list" where
  "ILLEGAL =
     [word ''forge'',
      Seq [Boundary, Lit ''fake'', Boundary, DotStar, Boundary,
           Alt [Lit ''doc'', Lit ''document'', Lit ''evidence''], Boundary],
      word ''bribe'',
      word ''blackmail'',
      word ''extort'',
      word ''threaten'']"

definition EMERGENCY :: "regex list" where
  "EMERGENCY =
     [word ''violence'',
      word ''assault'',
      word ''rape'',
      word ''stalking'',
      word ''kill myself'',
      word ''suicide'']"

text \<open>\<open>text or ""\<close>: \<open>None\<close> and the empty string both give the empty string.\<close>

definition classify :: "string option \<Rightarrow> string" where
  "classify text =
     (let t = lower (case text of None \<Rightarrow> [] | Some s \<Rightarrow> s) in
      if list_ex (\<lambda>p. re_search p t) EMERGENCY then ''emergency''
      else if list_ex (\<lambda>p. re_search p t) ILLEGAL then ''illegal''
      else ''ok'')"

definition canned_response :: "string \<Rightarrow> string" where
  "canned_response label =
     (if label = ''illegal'' then
        ''I can'' @ [CHR 0xE2, CHR 0x80, CHR 0x99] @ ''t help with anything illegal or harmful.\<newline>''
        @ ''This is general information, not legal advice.\<newline>''
        @ ''If you explain what happened, I can suggest lawful options (reporting channels, evidence preservation, and next steps).''
      else if label = ''emergency'' then
        ''If you are in immediate danger, contact emergency services now.\<newline>''
        @ ''In India you can call 112.\<newline>''
        @ ''This is general information, not legal advice.''
      else [])"

section \<open>app.py: the legacy handler\<close>

text \<open>
  An exception is a value; what it carries is opaque to the pipeline, which never inspects
  it. The generation capability is a parameter: given the system text and the user text it
  returns a reply or raises. Every call of an external capability is recorded in a log, so
  that "no call was made" is a statement about the result.
\<close>

datatype exn = RuntimeError string | ExternalError string

datatype event = Generate string | Retrieve string

record ChatRes =
  reply :: string
  safety :: string
  provider :: string

definition SYSTEM_STYLE :: string where
  "SYSTEM_STYLE =
     ''You are a Legal Awareness Assistant for India.\<newline>''
     @ ''Rules:\<newline>''
     @ ''1) Always include: 'This is general information, not legal advice.'\<newline>''
     @ ''2) Use simple language and bullet-point steps.\<newline>''
     @ ''3) Do not help with illegal or harmful actions.\<newline>''
     @ ''4) If unsure, say so and suggest checking official sources or consulting a lawyer/legal aid.\<newline>''"

text \<open>
  \<open>handle_message\<close>, with the configured provider name and the generation capability as
  parameters. The log of a generation call holds the user text it was given.
\<close>

definition handle_message ::
  "string \<Rightarrow> (string \<Rightarrow> string \<Rightarrow> exn + string) \<Rightarrow> string option \<Rightarrow> string
     \<Rightarrow> (exn + ChatRes) \<times> event list" where
  "handle_message FALLBACK_PROVIDER fallback_generate user_id message =
     (let label = classify (Some message) in
      if label = ''illegal'' \<or> label = ''emergency'' then
        (Inr \<lparr>reply = canned_response label, safety = label, provider = ''rules''\<rparr>, [])
      else
        (case fallback_generate SYSTEM_STYLE message of
           Inl e \<Rightarrow> (Inl e, [Generate message])
         | Inr r \<Rightarrow>
             (let r' = (if \<not> py_in ''not legal advice'' (lower r)
                        then ''This is general information, not legal advice.\<newline>\<newline>'' @ r
                        else r)
              in (Inr \<lparr>reply = r', safety = ''ok'', provider = FALLBACK_PROVIDER\<rparr>,
                  [Generate message]))))"

section \<open>app/rag.py: values, documents and citations\<close>

text \<open>
  A metadata value is a string or a number. \<open>py_str\<close> is \<open>str(v)\<close>, which is also what an
  f-string writes for \<open>{v}\<close>: a string unchanged, a number in decimal.
\<close>

datatype mval = MStr string | MInt int

function str_nat :: "nat \<Rightarrow> string" where
  "str_nat n =
     (if n < 10 then [''0123456789'' ! n]
      else str_nat (n div 10) @ [''0123456789'' ! (n mod 10)])"
  by pat_completeness auto
termination
  by (relation "measure (\<lambda>n. n)") auto

definition str_int :: "int \<Rightarrow> string" where
  "str_int i = (if i < 0 then ''-'' @ str_nat (nat (- i)) else str_nat (nat i))"

fun py_str :: "mval \<Rightarrow> string" where
  "py_str (MStr s) = s"
| "py_str (MInt i) = str_int i"

record Document =
  page_content :: string
  metadata :: "string \<rightharpoonup> mval"

text \<open>
  The citation dictionary: \<open>sect\<close> and \<open>page\<close> are the optional keys \<open>"section"\<close> and
  \<open>"page"\<close>.
\<close>

record Citation =
  source_title :: mval
  source :: mval
  snippet :: string
  sect :: "mval option"
  page :: "string option"

record AnswerResult =
  answer :: string
  citations :: "Citation list"
  has_context :: bool

definition LEGAL_DISCLAIMER :: string where
  "LEGAL_DISCLAIMER =
     ''\<newline>\<newline>**Disclaimer:** This is general legal information, not legal advice.''"

definition ILLEGAL_KEYWORDS :: "string list" where
  "ILLEGAL_KEYWORDS =
     [''evade'', ''avoid arrest'', ''hide crime'', ''commit fraud'', ''forge'',
      ''illegal drug'', ''smuggle'', ''bribe'', ''money laundering'', ''tax evasion'',
      ''hack'', ''break law'', ''get away with'', ''cover up crime'']"

definition is_illegal_query :: "string \<Rightarrow> bool" where
  "is_illegal_query query =
     (let query_lower = lower query in
      list_ex (\<lambda>keyword. py_in keyword query_lower) ILLEGAL_KEYWORDS)"

subsection \<open>\<open>_extract_citations\<close>\<close>

definition content_snippet :: "string \<Rightarrow> string" where
  "content_snippet pc = (if length pc > 200 then take 200 pc @ ''...'' else pc)"

definition doc_source :: "Document \<Rightarrow> mval" where
  "doc_source doc =
     (case metadata doc ''source'' of None \<Rightarrow> MStr ''Unknown Source'' | Some v \<Rightarrow> v)"

definition source_id :: "Document \<Rightarrow> string" where
  "source_id doc =
     py_str (doc_source doc) @ ''_'' @ take 50 (content_snippet (page_content doc))"

definition make_citation :: "Document \<Rightarrow> Citation" where
  "make_citation doc =
     \<lparr>source_title = (case metadata doc ''title'' of None \<Rightarrow> doc_source doc | Some v \<Rightarrow> v),
      source = doc_source doc,
      snippet = content_snippet (page_content doc),
      sect = metadata doc ''section'',
      page = map_option py_str (metadata doc ''page'')\<rparr>"

text \<open>The loop over the documents, with the list built so far and the set of keys seen.\<close>

fun extract_loop :: "Document list \<Rightarrow> Citation list \<Rightarrow> string set \<Rightarrow> Citation list" where
  "extract_loop [] cs seen = cs"
| "extract_loop (doc # docs) cs seen =
     (if source_id doc \<notin> seen
      then extract_loop docs (cs @ [make_citation doc]) (insert (source_id doc) seen)
      else extract_loop docs cs seen)"

definition extract_citations :: "Document list \<Rightarrow> Citation list" where
  "extract_citations documents = extract_loop documents [] {}"

section \<open>app/vectorstore.py and \<open>_retrieve_context\<close>\<close>

text \<open>
  The vector store is the external search capability: given \<open>k\<close>, the score threshold and
  the query it returns documents or raises. The manager holds it once initialised.
\<close>

record VectorStoreManager =
  vector_store :: "(nat \<Rightarrow> rat \<Rightarrow> string \<Rightarrow> exn + Document list) option"

definition get_retriever ::
  "VectorStoreManager \<Rightarrow> nat \<Rightarrow> rat \<Rightarrow> exn + (string \<Rightarrow> exn + Document list)" where
  "get_retriever m k score_threshold =
     (case vector_store m of
        None \<Rightarrow> Inl (RuntimeError ''Vector store not initialized'')
      | Some vs \<Rightarrow> Inr (vs k score_threshold))"

fun py_join :: "string \<Rightarrow> string list \<Rightarrow> string" where
  "py_join sep [] = []"
| "py_join sep [x] = x"
| "py_join sep (x # y # ys) = x @ sep @ py_join sep (y # ys)"

definition context_part :: "nat \<Rightarrow> Document \<Rightarrow> string" where
  "context_part i doc =
     ''[Source '' @ str_nat i @ '': ''
     @ py_str (case metadata doc ''source'' of None \<Rightarrow> MStr ''Unknown'' | Some v \<Rightarrow> v)
     @ '']\<newline>'' @ page_content doc @ ''\<newline>''"

definition format_context :: "Document list \<Rightarrow> string" where
  "format_context documents =
     py_join ''\<newline>---\<newline>''
       (map (\<lambda>(i, doc). context_part i doc) (zip [1..<Suc (length documents)] documents))"

text \<open>
  \<open>_retrieve_context\<close> with \<open>k = 10\<close>. The handler logs and re-raises, so an exception
  comes out as it went in.
\<close>

definition retrieve_context ::
  "VectorStoreManager \<Rightarrow> string \<Rightarrow> (exn + string \<times> Document list) \<times> event list" where
  "retrieve_context m query =
     (case get_retriever m 10 (3 / 10) of
        Inl e \<Rightarrow> (Inl e, [])
      | Inr retriever \<Rightarrow>
          (case retriever query of
             Inl e \<Rightarrow> (Inl e, [Retrieve query])
           | Inr documents \<Rightarrow>
               if documents = [] then (Inr ([], []), [Retrieve query])
               else (Inr (format_context documents, documents), [Retrieve query])))"

section \<open>\<open>process_query\<close>\<close>

text \<open>
  The system holds the vector store manager, the generation capability and the prompt
  template. \<open>llm n prompt\<close> is what the \<open>n\<close>-th generation call of a query (counted from
  0) returns for \<open>prompt\<close>, so two calls need not agree. The template is the library's
  formatting of the grounded prompt from the context and the question.
\<close>

record LegalRAGSystem =
  vector_store_manager :: VectorStoreManager
  llm :: "nat \<Rightarrow> string \<Rightarrow> exn + string"
  prompt_template :: "string \<Rightarrow> string \<Rightarrow> string"

definition fallback_prompt :: "string \<Rightarrow> string" where
  "fallback_prompt query =
     ''You are a helpful legal AI assistant. Answer the following question to the best of your ability:\<newline>''
     @ ''\<newline>''
     @ ''Question: '' @ query @ ''\<newline>''
     @ ''\<newline>''
     @ ''Provide a clear and accurate answer.''"

definition ILLEGAL_ANSWER :: string where
  "ILLEGAL_ANSWER =
     ''I cannot provide guidance on illegal activities. If you have questions about legal compliance or your rights, I'm happy to help with that instead.''"

definition insufficient :: "string \<Rightarrow> bool" where
  "insufficient out =
     (py_in ''don't have enough'' (lower out) \<or> py_in ''insufficient information'' (lower out))"

definition process_query ::
  "LegalRAGSystem \<Rightarrow> string \<Rightarrow> (exn + AnswerResult) \<times> event list" where
  "process_query self query =
     (if is_illegal_query query then
        (Inr \<lparr>answer = ILLEGAL_ANSWER @ LEGAL_DISCLAIMER, citations = [], has_context = False\<rparr>,
         [])
      else
        (case retrieve_context (vector_store_manager self) query of
           (Inl e, ev) \<Rightarrow> (Inl e, ev)
         | (Inr (context, documents), ev) \<Rightarrow>
             if context = [] \<or> documents = [] then
               (case llm self 0 (fallback_prompt query) of
                  Inl e \<Rightarrow> (Inl e, ev @ [Generate (fallback_prompt query)])
                | Inr content \<Rightarrow>
                    (Inr \<lparr>answer = content @ LEGAL_DISCLAIMER, citations = [],
                          has_context = False\<rparr>,
                     ev @ [Generate (fallback_prompt query)]))
             else
               (let prompt = prompt_template self context query in
                case llm self 0 prompt of
                  Inl e \<Rightarrow> (Inl e, ev @ [Generate prompt])
                | Inr answer0 \<Rightarrow>
                    if insufficient answer0 then
                      (case llm self 1 (fallback_prompt query) of
                         Inl e \<Rightarrow>
                           (Inl e, ev @ [Generate prompt, Generate (fallback_prompt query)])
                       | Inr answer1 \<Rightarrow>
                           (Inr \<lparr>answer = answer1 @ LEGAL_DISCLAIMER, citations = [],
                                 has_context = True\<rparr>,
                            ev @ [Generate prompt, Generate (fallback_prompt query)]))
                    else
                      (Inr \<lparr>answer = answer0 @ LEGAL_DISCLAIMER, citations = [],
                            has_context = True\<rparr>,
                       ev @ [Generate prompt]))))"

section \<open>Auxiliary definitions\<close>

text \<open>
  The documents that the loop of \<open>_extract_citations\<close> turns into citations: those whose
  key is not among the keys seen so far. It is used to state what the loop computes.
\<close>

fun fresh_docs :: "Document list \<Rightarrow> string set \<Rightarrow> Document list" where
  "fresh_docs [] seen = []"
| "fresh_docs (doc # docs) seen =
     (if source_id doc \<notin> seen then doc # fresh_docs docs (insert (source_id doc) seen)
      else fresh_docs docs seen)"

text \<open>
  Stand-ins for the external capabilities, for the concrete runs below: a prompt template, a
  vector store that finds nothing, one that fails and one that returns a single passage, and
  generation capabilities with fixed replies.
\<close>

definition tmpl :: "string \<Rightarrow> string \<Rightarrow> string" where
  "tmpl context question = ''Context: '' @ context @ '' Question: '' @ question"

definition vs_empty :: "nat \<Rightarrow> rat \<Rightarrow> string \<Rightarrow> exn + Document list" where
  "vs_empty k th q = Inr []"

definition vs_fail :: "nat \<Rightarrow> rat \<Rightarrow> string \<Rightarrow> exn + Document list" where
  "vs_fail k th q = Inl (ExternalError ''connection refused'')"

definition doc_const :: Document where
  "doc_const = \<lparr>page_content = ''Article 14: Equality before law.'',
      metadata = [''source'' \<mapsto> MStr ''constitution.pdf'', ''title'' \<mapsto> MStr ''Constitution of India'']\<rparr>"

definition vs_one :: "nat \<Rightarrow> rat \<Rightarrow> string \<Rightarrow> exn + Document list" where
  "vs_one k th q = Inr [doc_const]"

definition llm_plain :: "nat \<Rightarrow> string \<Rightarrow> exn + string" where
  "llm_plain n p = Inr ''General answer.''"

definition llm_dup :: "nat \<Rightarrow> string \<Rightarrow> exn + string" where
  "llm_dup n p = Inr (''Answer.'' @ LEGAL_DISCLAIMER)"

definition llm_insuff :: "nat \<Rightarrow> string \<Rightarrow> exn + string" where
  "llm_insuff n p =
     (if n = 0 then Inr ''I don't have enough verified information in my knowledge base to answer that precisely.''
      else Inr ''General answer.'')"

definition sys_empty :: LegalRAGSystem where
  "sys_empty = \<lparr>vector_store_manager = \<lparr>vector_store = Some vs_empty\<rparr>, llm = llm_plain, prompt_template = tmpl\<rparr>"

definition sys_dup :: LegalRAGSystem where
  "sys_dup = \<lparr>vector_store_manager = \<lparr>vector_store = Some vs_empty\<rparr>, llm = llm_dup, prompt_template = tmpl\<rparr>"

definition sys_fail :: LegalRAGSystem where
  "sys_fail = \<lparr>vector_store_manager = \<lparr>vector_store = Some vs_fail\<rparr>, llm = llm_plain, prompt_template = tmpl\<rparr>"

definition sys_insuff :: LegalRAGSystem where
  "sys_insuff = \<lparr>vector_store_manager = \<lparr>vector_store = Some vs_one\<rparr>, llm = llm_insuff, prompt_template = tmpl\<rparr>"

definition gen_plain :: "string \<Rightarrow> string \<Rightarrow> exn + string" where
  "gen_plain system user = Inr ''You should consult a lawyer.''"

definition doc_a :: Document where
  "doc_a = \<lparr>page_content = ''_b'', metadata = [''source'' \<mapsto> MStr ''a'']\<rparr>"

definition doc_b :: Document where
  "doc_b = \<lparr>page_content = ''b'', metadata = [''source'' \<mapsto> MStr ''a_'']\<rparr>"

definition doc_long :: Document where
  "doc_long = \<lparr>page_content = replicate 201 CHR ''x'', metadata = [''source'' \<mapsto> MStr ''act.pdf'']\<rparr>"

section \<open>Facts about strings\<close>

lemma py_in_sublist: "py_in d s \<longleftrightarrow> sublist d s"
  by (induction s) (simp_all add: sublist_Cons_right)

lemma py_in_iff: "py_in d s \<longleftrightarrow> (\<exists>i\<le>length s. prefix d (drop i s))"
proof
  assume "py_in d s"
  then obtain ps ss where s: "s = ps @ d @ ss" by (auto simp: py_in_sublist sublist_def)
  then have "prefix d (drop (length ps) s)" by simp
  moreover have "length ps \<le> length s" using s by simp
  ultimately show "\<exists>i\<le>length s. prefix d (drop i s)" by blast
next
  assume "\<exists>i\<le>length s. prefix d (drop i s)"
  then obtain i where "prefix d (drop i s)" by blast
  then obtain ss where "drop i s = d @ ss" by (auto simp: prefix_def)
  then have "s = take i s @ d @ ss" by (metis append_take_drop_id)
  then show "py_in d s" unfolding py_in_sublist sublist_def by blast
qed

lemma py_in_append_left: "py_in d a \<Longrightarrow> py_in d (a @ b)"
  by (simp add: py_in_sublist sublist_append)

lemma py_in_append_right: "py_in d b \<Longrightarrow> py_in d (a @ b)"
  by (simp add: py_in_sublist sublist_append)

lemma lower_append: "lower (a @ b) = lower a @ lower b"
  by (simp add: lower_def)

lemma set_occurrences: "set (occurrences d s) = {i. i \<le> length s \<and> prefix d (drop i s)}"
  by (auto simp: occurrences_def less_Suc_eq_le simp del: upt_Suc)

lemma filter_eq_upt: "n < m \<Longrightarrow> filter (\<lambda>i. i = n) [0..<m] = [n::nat]"
  by (induction m) (auto simp: less_Suc_eq)

lemma occ_at:
  assumes d: "d \<noteq> []" and nb: "last d \<notin> set (butlast d)" and no: "\<not> py_in d xs"
    and i: "i \<le> length (xs @ d)"
  shows "prefix d (drop i (xs @ d)) \<longleftrightarrow> i = length xs"
proof
  assume "i = length xs" then show "prefix d (drop i (xs @ d))" by simp
next
  assume p: "prefix d (drop i (xs @ d))"
  show "i = length xs"
  proof (rule ccontr)
    assume ne: "i \<noteq> length xs"
    show False
    proof (cases "i < length xs")
      case False
      moreover have "0 < length d" using d by simp
      ultimately have "length (drop i (xs @ d)) < length d" using ne i by simp
      with p show False by (auto dest: prefix_length_le)
    next
      case True
      show False
      proof (cases "i + length d \<le> length xs")
        case True
        from p \<open>i < length xs\<close> have "prefix d (drop i xs @ d)" by simp
        then consider "prefix d (drop i xs)" | us where "d = drop i xs @ us"
          unfolding prefix_append by blast
        then have "prefix d (drop i xs)"
        proof cases
          case 1 then show ?thesis .
        next
          case 2
          then have "length d = length xs - i + length us" by (metis length_append length_drop)
          with True \<open>i < length xs\<close> have "us = []" by simp
          with 2 show ?thesis by simp
        qed
        then show False using no True unfolding py_in_iff by auto
      next
        case False
        define k where "k = length xs - i"
        have k: "0 < k" "k < length d" using True False by (auto simp: k_def)
        from p have "take (length d) (drop i (xs @ d)) = d"
          by (metis append_eq_conv_conj prefix_def)
        then have "(drop i (xs @ d)) ! (length d - 1) = d ! (length d - 1)"
          using d by (metis diff_less length_greater_0_conv nth_take zero_less_one)
        moreover have "(drop i (xs @ d)) ! (length d - 1) = d ! (length d - 1 - k)"
        proof -
          have "\<not> length d - 1 < length (drop i xs)" using k by (simp add: k_def)
          moreover have "drop i (xs @ d) = drop i xs @ d" using True by simp
          ultimately show ?thesis by (simp add: nth_append k_def)
        qed
        ultimately have "d ! (length d - 1 - k) = last d" using d by (simp add: last_conv_nth)
        moreover have "d ! (length d - 1 - k) \<in> set (butlast d)"
        proof -
          have "length d - 1 - k < length (butlast d)" using k by simp
          then have "butlast d ! (length d - 1 - k) \<in> set (butlast d)" by (rule nth_mem)
          then show ?thesis using k by (simp add: nth_butlast)
        qed
        ultimately show False using nb by simp
      qed
    qed
  qed
qed

lemma occurrences_append_self:
  assumes d: "d \<noteq> []" and nb: "last d \<notin> set (butlast d)" and no: "\<not> py_in d xs"
  shows "occurrences d (xs @ d) = [length xs]"
proof -
  have "filter (\<lambda>i. prefix d (drop i (xs @ d))) [0..<Suc (length (xs @ d))]
        = filter (\<lambda>i. i = length xs) [0..<Suc (length (xs @ d))]"
  proof (rule filter_cong[OF refl])
    fix i assume "i \<in> set [0..<Suc (length (xs @ d))]"
    then have "i \<le> length (xs @ d)" by (simp add: less_Suc_eq_le del: upt_Suc)
    then show "prefix d (drop i (xs @ d)) = (i = length xs)" by (rule occ_at[OF d nb no])
  qed
  then show ?thesis unfolding occurrences_def by (simp add: filter_eq_upt del: upt_Suc)
qed

lemma occurrences_twice:
  assumes d: "d \<noteq> []" and yes: "py_in d xs"
  shows "2 \<le> length (occurrences d (xs @ d))"
proof -
  from yes obtain i where i: "i \<le> length xs" "prefix d (drop i xs)" unfolding py_in_iff by blast
  then have "length d \<le> length xs - i" by (auto dest: prefix_length_le)
  with d have lt: "i < length xs" by (cases d) auto
  have "prefix d (drop i (xs @ d))" using i lt by (auto simp: prefix_def)
  then have a: "i \<in> set (occurrences d (xs @ d))" using lt by (simp add: set_occurrences)
  have b: "length xs \<in> set (occurrences d (xs @ d))" by (simp add: set_occurrences)
  have "distinct (occurrences d (xs @ d))" by (simp add: occurrences_def)
  then have "length (occurrences d (xs @ d)) = card (set (occurrences d (xs @ d)))"
    by (simp add: distinct_card)
  moreover have "card {i, length xs} \<le> card (set (occurrences d (xs @ d)))"
    by (rule card_mono) (use a b in auto)
  moreover have "card {i, length xs} = 2" using lt by simp
  ultimately show ?thesis by simp
qed

section \<open>The safety classifier\<close>

text \<open>
  Claim C6. The classifier is a function of its text alone, in tiers: if some emergency
  pattern matches the lowered text the label is \<open>emergency\<close>, whatever the illegal
  patterns do; otherwise, if some illegal pattern matches, it is \<open>illegal\<close>; otherwise
  it is \<open>ok\<close>. No pattern matches the empty text, so \<open>None\<close> and the empty string
  are both classified \<open>ok\<close>.
\<close>

theorem classify_tiers:
  "((\<exists>p\<in>set EMERGENCY. re_search p (lower (case text of None \<Rightarrow> [] | Some s \<Rightarrow> s)))
      \<longrightarrow> classify text = ''emergency'')
   \<and> ((\<forall>p\<in>set EMERGENCY. \<not> re_search p (lower (case text of None \<Rightarrow> [] | Some s \<Rightarrow> s)))
        \<and> (\<exists>p\<in>set ILLEGAL. re_search p (lower (case text of None \<Rightarrow> [] | Some s \<Rightarrow> s)))
      \<longrightarrow> classify text = ''illegal'')
   \<and> ((\<forall>p\<in>set EMERGENCY. \<not> re_search p (lower (case text of None \<Rightarrow> [] | Some s \<Rightarrow> s)))
        \<and> (\<forall>p\<in>set ILLEGAL. \<not> re_search p (lower (case text of None \<Rightarrow> [] | Some s \<Rightarrow> s)))
      \<longrightarrow> classify text = ''ok'')
   \<and> (\<forall>p\<in>set (EMERGENCY @ ILLEGAL). \<not> re_search p (lower []))
   \<and> classify None = ''ok'' \<and> classify (Some []) = ''ok''"
proof -
  have e: "\<forall>p\<in>set (EMERGENCY @ ILLEGAL). \<not> re_search p (lower [])"
    by code_simp
  then have "classify None = ''ok''" "classify (Some []) = ''ok''"
    by (simp_all add: classify_def list_ex_iff)
  with e show ?thesis by (simp add: classify_def list_ex_iff Let_def)
qed

theorem classify_tiers_witness:
  "list_ex (\<lambda>p. re_search p (lower ''Bribe after the ASSAULT'')) EMERGENCY
   \<and> list_ex (\<lambda>p. re_search p (lower ''Bribe after the ASSAULT'')) ILLEGAL
   \<and> classify (Some ''Bribe after the ASSAULT'') = ''emergency''
   \<and> \<not> list_ex (\<lambda>p. re_search p (lower ''a fake big document.'')) EMERGENCY
   \<and> list_ex (\<lambda>p. re_search p (lower ''a fake big document.'')) ILLEGAL
   \<and> classify (Some ''a fake big document.'') = ''illegal''
   \<and> \<not> list_ex (\<lambda>p. re_search p (lower ''What is bail?'')) EMERGENCY
   \<and> \<not> list_ex (\<lambda>p. re_search p (lower ''What is bail?'')) ILLEGAL
   \<and> classify (Some ''What is bail?'') = ''ok''"
proof -
  have a1: "list_ex (\<lambda>p. re_search p (lower ''Bribe after the ASSAULT'')) EMERGENCY"
    by code_simp
  have a2: "list_ex (\<lambda>p. re_search p (lower ''Bribe after the ASSAULT'')) ILLEGAL"
    by code_simp
  have b1: "\<not> list_ex (\<lambda>p. re_search p (lower ''a fake big document.'')) EMERGENCY"
    by code_simp
  have b2: "list_ex (\<lambda>p. re_search p (lower ''a fake big document.'')) ILLEGAL"
    by code_simp
  have c1: "\<not> list_ex (\<lambda>p. re_search p (lower ''What is bail?'')) EMERGENCY"
    by code_simp
  have c2: "\<not> list_ex (\<lambda>p. re_search p (lower ''What is bail?'')) ILLEGAL"
    by code_simp
  from classify_tiers[of "Some ''Bribe after the ASSAULT''"] a1
  have a: "classify (Some ''Bribe after the ASSAULT'') = ''emergency''"
    by (simp add: list_ex_iff)
  from classify_tiers[of "Some ''a fake big document.''"] b1 b2
  have b: "classify (Some ''a fake big document.'') = ''illegal''"
    by (simp add: list_ex_iff)
  from classify_tiers[of "Some ''What is bail?''"] c1 c2
  have c: "classify (Some ''What is bail?'') = ''ok''"
    by (simp add: list_ex_iff)
  from a1 a2 a b1 b2 b c1 c2 c show ?thesis by blast
qed

lemma classify_labels: "classify text = ''emergency'' \<or> classify text = ''illegal'' \<or> classify text = ''ok''"
  by (simp add: classify_def Let_def)

section \<open>The legacy handler\<close>

lemma nla_emergency: "py_in ''not legal advice'' (lower (canned_response ''emergency''))" by code_simp

lemma nla_illegal: "py_in ''not legal advice'' (lower (canned_response ''illegal''))" by code_simp

lemma nla_prefix: "py_in ''not legal advice'' (lower ''This is general information, not legal advice.\<newline>\<newline>'')" by code_simp

lemma forge_illegal: "classify (Some ''How do I forge a will?'') = ''illegal''" by code_simp

lemma km_ok: "\<not> is_illegal_query ''kill myself''" by code_simp

lemma no112: "\<not> py_in ''112'' (''General answer.'' @ LEGAL_DISCLAIMER)" by code_simp

lemma bail_ok: "classify (Some ''What is bail?'') = ''ok''" by code_simp

lemma lawyer_lacks: "\<not> py_in ''not legal advice'' (lower ''You should consult a lawyer.'')" by code_simp

lemma bail_not_illegal: "\<not> is_illegal_query ''What is bail?''" by code_simp

text \<open>
  Claim C1, as amended. For every message that the classifier labels \<open>emergency\<close> or
  \<open>illegal\<close>, the legacy handler \<open>handle_message\<close> returns the canned response of
  that label, with the label as \<open>safety\<close> and \<open>rules\<close> as provider, and makes no
  generation call (the log is empty). For the message \<open>kill myself\<close> the label is
  \<open>emergency\<close> and the reply contains \<open>112\<close> and the disclaimer sentence. The result
  of the legacy handler has no citation list.
\<close>

theorem handle_message_blocked:
  "(classify (Some message) = ''emergency'' \<or> classify (Some message) = ''illegal'' \<longrightarrow>
      handle_message prov gen uid message =
        (Inr \<lparr>reply = canned_response (classify (Some message)),
              safety = classify (Some message), provider = ''rules''\<rparr>, []))
   \<and> classify (Some ''kill myself'') = ''emergency''
   \<and> handle_message prov gen uid ''kill myself'' =
        (Inr \<lparr>reply = canned_response ''emergency'', safety = ''emergency'',
              provider = ''rules''\<rparr>, [])
   \<and> py_in ''112'' (canned_response ''emergency'')
   \<and> py_in ''This is general information, not legal advice.'' (canned_response ''emergency'')"
proof -
  have k: "classify (Some ''kill myself'') = ''emergency''" by code_simp
  have a: "py_in ''112'' (canned_response ''emergency'')" by code_simp
  have b: "py_in ''This is general information, not legal advice.'' (canned_response ''emergency'')"
    by code_simp
  have g: "classify (Some m) = ''emergency'' \<or> classify (Some m) = ''illegal'' \<Longrightarrow>
      handle_message prov gen uid m =
        (Inr \<lparr>reply = canned_response (classify (Some m)),
              safety = classify (Some m), provider = ''rules''\<rparr>, [])" for m
    by (auto simp: handle_message_def Let_def)
  from g[of "''kill myself''"] k
  have "handle_message prov gen uid ''kill myself'' =
        (Inr \<lparr>reply = canned_response ''emergency'', safety = ''emergency'',
              provider = ''rules''\<rparr>, [])" by simp
  with k a b g[of message] show ?thesis by blast
qed

theorem handle_message_blocked_witness:
  "classify (Some ''How do I forge a will?'') = ''illegal''
   \<and> handle_message ''gemini'' gen_plain None ''How do I forge a will?'' =
        (Inr \<lparr>reply = canned_response ''illegal'', safety = ''illegal'', provider = ''rules''\<rparr>, [])"
  using handle_message_blocked[of "''How do I forge a will?''" "''gemini''" gen_plain None] forge_illegal
  by simp

text \<open>
  The pipeline whose result carries a citation list, \<open>process_query\<close>, does not consult
  the classifier: \<open>kill myself\<close> contains none of its keywords, so it retrieves, calls
  the generation capability and returns the generated text, which need not contain
  \<open>112\<close>.
\<close>

theorem process_query_kill_myself:
  "classify (Some ''kill myself'') = ''emergency''
   \<and> process_query sys_empty ''kill myself'' =
       (Inr \<lparr>answer = ''General answer.'' @ LEGAL_DISCLAIMER, citations = [], has_context = False\<rparr>,
        [Retrieve ''kill myself'', Generate (fallback_prompt ''kill myself'')])
   \<and> \<not> py_in ''112'' (''General answer.'' @ LEGAL_DISCLAIMER)"
proof -
  have "classify (Some ''kill myself'') = ''emergency''" by code_simp
  moreover have "process_query sys_empty ''kill myself'' =
       (Inr \<lparr>answer = ''General answer.'' @ LEGAL_DISCLAIMER, citations = [], has_context = False\<rparr>,
        [Retrieve ''kill myself'', Generate (fallback_prompt ''kill myself'')])"
    using km_ok by (simp add: process_query_def sys_empty_def retrieve_context_def get_retriever_def
        vs_empty_def llm_plain_def)
  ultimately show ?thesis using no112 by simp
qed

text \<open>
  Claim C9. Whatever the message and whatever string the generation capability returns,
  the legacy handler produces a reply, and the lowered reply contains
  \<open>not legal advice\<close>: the reply is one of the two canned responses, or the generated
  text when that already contains the phrase, or the disclaimer sentence followed by the
  generated text when it does not.
\<close>

theorem handle_message_not_legal_advice:
  assumes "gen SYSTEM_STYLE message = Inr r"
  shows "\<exists>res ev. handle_message prov gen uid message = (Inr res, ev)
           \<and> py_in ''not legal advice'' (lower (reply res))
           \<and> (reply res = canned_response ''illegal''
              \<or> reply res = canned_response ''emergency''
              \<or> reply res = r \<and> py_in ''not legal advice'' (lower r)
              \<or> reply res = ''This is general information, not legal advice.\<newline>\<newline>'' @ r
                 \<and> \<not> py_in ''not legal advice'' (lower r))"
proof -
  consider (e) "classify (Some message) = ''emergency''" | (i) "classify (Some message) = ''illegal''"
    | (o) "classify (Some message) = ''ok''" using classify_labels by blast
  then show ?thesis
  proof cases
    case e then show ?thesis using nla_emergency by (simp add: handle_message_def Let_def)
  next
    case i then show ?thesis using nla_illegal by (simp add: handle_message_def Let_def)
  next
    case o
    show ?thesis
    proof (cases "py_in ''not legal advice'' (lower r)")
      case True
      then show ?thesis using o assms by (simp add: handle_message_def Let_def)
    next
      case False
      have "py_in ''not legal advice'' (lower (''This is general information, not legal advice.\<newline>\<newline>'' @ r))"
        unfolding lower_append by (rule py_in_append_left[OF nla_prefix])
      then show ?thesis using o assms False by (simp add: handle_message_def Let_def)
    qed
  qed
qed

theorem handle_message_not_legal_advice_witness:
  "gen_plain SYSTEM_STYLE ''What is bail?'' = Inr ''You should consult a lawyer.''
   \<and> handle_message ''gemini'' gen_plain None ''What is bail?'' =
       (Inr \<lparr>reply = ''This is general information, not legal advice.\<newline>\<newline>You should consult a lawyer.'',
             safety = ''ok'', provider = ''gemini''\<rparr>, [Generate ''What is bail?''])
   \<and> py_in ''not legal advice''
        (lower ''This is general information, not legal advice.\<newline>\<newline>You should consult a lawyer.'')"
proof -
  have g: "gen_plain SYSTEM_STYLE ''What is bail?'' = Inr ''You should consult a lawyer.''"
    by (simp add: gen_plain_def)
  from handle_message_not_legal_advice[where gen = gen_plain and prov = "''gemini''" and uid = None, OF g]
  obtain res ev where h: "handle_message ''gemini'' gen_plain None ''What is bail?'' = (Inr res, ev)"
    "py_in ''not legal advice'' (lower (reply res))" by blast
  have "handle_message ''gemini'' gen_plain None ''What is bail?'' =
       (Inr \<lparr>reply = ''This is general information, not legal advice.\<newline>\<newline>You should consult a lawyer.'',
             safety = ''ok'', provider = ''gemini''\<rparr>, [Generate ''What is bail?''])"
    using bail_ok lawyer_lacks by (simp add: handle_message_def gen_plain_def)
  with h g show ?thesis by auto
qed

section \<open>The RAG pipeline\<close>

text \<open>
  Claim C10. The illegal-query check is substring matching on the lowered query: if any
  configured keyword occurs in it, at any position, \<open>process_query\<close> returns the fixed
  decline answer with no context and no citations, and calls neither the retriever nor the
  generation capability. The concrete run has the keyword \<open>hack\<close> inside the word
  \<open>Shack\<close>.
\<close>

theorem process_query_illegal_keyword:
  assumes "keyword \<in> set ILLEGAL_KEYWORDS" and "py_in keyword (lower query)"
  shows "process_query self query =
           (Inr \<lparr>answer = ILLEGAL_ANSWER @ LEGAL_DISCLAIMER, citations = [], has_context = False\<rparr>, [])"
proof -
  have "is_illegal_query query" using assms by (auto simp: is_illegal_query_def list_ex_iff)
  then show ?thesis by (simp add: process_query_def)
qed

theorem process_query_illegal_keyword_witness:
  "''hack'' \<in> set ILLEGAL_KEYWORDS \<and> py_in ''hack'' (lower ''How do I build a garden Shack?'')
   \<and> process_query sys_insuff ''How do I build a garden Shack?'' =
       (Inr \<lparr>answer = ILLEGAL_ANSWER @ LEGAL_DISCLAIMER, citations = [], has_context = False\<rparr>, [])"
proof -
  have a: "''hack'' \<in> set ILLEGAL_KEYWORDS" by (simp add: ILLEGAL_KEYWORDS_def)
  have b: "py_in ''hack'' (lower ''How do I build a garden Shack?'')" by code_simp
  from process_query_illegal_keyword[OF a b] a b show ?thesis by simp
qed

text \<open>
  Claim C5. For a query that passes the keyword check and for which retrieval returns no
  passage, the pipeline calls the generation capability once, with the generic prompt, and
  its result has \<open>has_context = False\<close>, no citations, and the generated text followed
  by the disclaimer as answer; if the generation call raises, so does the pipeline.
\<close>

theorem process_query_no_passages:
  assumes "\<not> is_illegal_query query"
    and "vector_store (vector_store_manager self) = Some vs"
    and "vs 10 (3 / 10) query = Inr []"
  shows "process_query self query =
          (case llm self 0 (fallback_prompt query) of
             Inl e \<Rightarrow> (Inl e, [Retrieve query, Generate (fallback_prompt query)])
           | Inr content \<Rightarrow>
               (Inr \<lparr>answer = content @ LEGAL_DISCLAIMER, citations = [], has_context = False\<rparr>,
                [Retrieve query, Generate (fallback_prompt query)]))"
  using assms
  by (simp add: process_query_def retrieve_context_def get_retriever_def split: sum.splits)

theorem process_query_no_passages_witness:
  "\<not> is_illegal_query ''What is bail?''
   \<and> vector_store (vector_store_manager sys_empty) = Some vs_empty
   \<and> vs_empty 10 (3 / 10) ''What is bail?'' = Inr []
   \<and> process_query sys_empty ''What is bail?'' =
       (Inr \<lparr>answer = ''General answer.'' @ LEGAL_DISCLAIMER, citations = [], has_context = False\<rparr>,
        [Retrieve ''What is bail?'', Generate (fallback_prompt ''What is bail?'')])"
proof -
  have a: "\<not> is_illegal_query ''What is bail?''" by code_simp
  have b: "vector_store (vector_store_manager sys_empty) = Some vs_empty" by (simp add: sys_empty_def)
  have c: "vs_empty 10 (3 / 10) ''What is bail?'' = Inr []" by (simp add: vs_empty_def)
  from process_query_no_passages[OF a b c] a b c show ?thesis
    by (simp add: sys_empty_def llm_plain_def)
qed

text \<open>
  Claim C8. For a query that passes the keyword check, an exception raised by the vector
  search comes out of \<open>process_query\<close> as it was raised, after the retrieval call and
  with no generation call; so does the error of a vector store that was never initialised.
  The outcome is an error, not the result that empty retrieval gives.
\<close>

theorem process_query_retrieval_error:
  assumes "\<not> is_illegal_query query"
  shows "(vector_store (vector_store_manager self) = Some vs \<and> vs 10 (3 / 10) query = Inl e
            \<longrightarrow> process_query self query = (Inl e, [Retrieve query]))
         \<and> (vector_store (vector_store_manager self) = None
            \<longrightarrow> process_query self query = (Inl (RuntimeError ''Vector store not initialized''), []))"
  using assms
  by (simp add: process_query_def retrieve_context_def get_retriever_def)

theorem process_query_retrieval_error_witness:
  "\<not> is_illegal_query ''What is bail?''
   \<and> vector_store (vector_store_manager sys_fail) = Some vs_fail
   \<and> vs_fail 10 (3 / 10) ''What is bail?'' = Inl (ExternalError ''connection refused'')
   \<and> process_query sys_fail ''What is bail?'' =
       (Inl (ExternalError ''connection refused''), [Retrieve ''What is bail?''])"
proof -
  have a: "\<not> is_illegal_query ''What is bail?''" by code_simp
  have b: "vector_store (vector_store_manager sys_fail) = Some vs_fail" by (simp add: sys_fail_def)
  have c: "vs_fail 10 (3 / 10) ''What is bail?'' = Inl (ExternalError ''connection refused'')"
    by (simp add: vs_fail_def)
  from process_query_retrieval_error[OF a, of sys_fail vs_fail "ExternalError ''connection refused''"] a b c
  show ?thesis by simp
qed

lemma D_nonempty: "LEGAL_DISCLAIMER \<noteq> []" by (simp add: LEGAL_DISCLAIMER_def)

lemma D_last: "last LEGAL_DISCLAIMER \<notin> set (butlast LEGAL_DISCLAIMER)"
  by (simp add: LEGAL_DISCLAIMER_def)

lemma process_query_answer:
  assumes ok: "\<not> is_illegal_query query"
    and res: "process_query self query = (Inr res, ev)"
  shows "\<exists>n p out. llm self n p = Inr out \<and> Generate p \<in> set ev
           \<and> answer res = out @ LEGAL_DISCLAIMER"
  using ok res unfolding process_query_def Let_def
  by (auto split: prod.splits sum.splits if_splits) blast+

lemma sys_dup_run: "process_query sys_dup ''What is bail?'' =
   (Inr \<lparr>answer = ''Answer.'' @ LEGAL_DISCLAIMER @ LEGAL_DISCLAIMER, citations = [], has_context = False\<rparr>,
    [Retrieve ''What is bail?'', Generate (fallback_prompt ''What is bail?'')])"
  using bail_not_illegal
  by (simp add: process_query_def sys_dup_def retrieve_context_def get_retriever_def vs_empty_def llm_dup_def)

lemma sys_empty_run: "process_query sys_empty ''What is bail?'' =
   (Inr \<lparr>answer = ''General answer.'' @ LEGAL_DISCLAIMER, citations = [], has_context = False\<rparr>,
    [Retrieve ''What is bail?'', Generate (fallback_prompt ''What is bail?'')])"
  using bail_not_illegal
  by (simp add: process_query_def sys_empty_def retrieve_context_def get_retriever_def vs_empty_def llm_plain_def)

text \<open>
  Claim C2, as amended. For a query that passes the keyword check, every result of
  \<open>process_query\<close> has as answer the text of a generation call followed by the
  disclaimer, which is appended unconditionally. The answer therefore contains the
  disclaimer at the end; it contains it exactly once when the generated text does not
  contain it, and at least twice when it does.
\<close>

theorem disclaimer_count:
  assumes ok: "\<not> is_illegal_query query"
    and res: "process_query self query = (Inr res, ev)"
  shows "\<exists>n p out. llm self n p = Inr out \<and> Generate p \<in> set ev
           \<and> answer res = out @ LEGAL_DISCLAIMER
           \<and> length out \<in> set (occurrences LEGAL_DISCLAIMER (answer res))
           \<and> (\<not> py_in LEGAL_DISCLAIMER out \<longrightarrow>
                 occurrences LEGAL_DISCLAIMER (answer res) = [length out])
           \<and> (py_in LEGAL_DISCLAIMER out \<longrightarrow>
                 2 \<le> length (occurrences LEGAL_DISCLAIMER (answer res)))"
proof -
  from process_query_answer[OF ok res] obtain n p out where
    h: "llm self n p = Inr out" "Generate p \<in> set ev" "answer res = out @ LEGAL_DISCLAIMER"
    by blast
  have "length out \<in> set (occurrences LEGAL_DISCLAIMER (out @ LEGAL_DISCLAIMER))"
    by (simp add: set_occurrences)
  moreover have "\<not> py_in LEGAL_DISCLAIMER out \<longrightarrow>
      occurrences LEGAL_DISCLAIMER (out @ LEGAL_DISCLAIMER) = [length out]"
    using occurrences_append_self[OF D_nonempty D_last] by blast
  moreover have "py_in LEGAL_DISCLAIMER out \<longrightarrow>
      2 \<le> length (occurrences LEGAL_DISCLAIMER (out @ LEGAL_DISCLAIMER))"
    using occurrences_twice[OF D_nonempty] by blast
  ultimately show ?thesis using h by auto
qed

theorem disclaimer_count_witness:
  "\<not> is_illegal_query ''What is bail?''
   \<and> process_query sys_empty ''What is bail?'' =
      (Inr \<lparr>answer = ''General answer.'' @ LEGAL_DISCLAIMER, citations = [], has_context = False\<rparr>,
       [Retrieve ''What is bail?'', Generate (fallback_prompt ''What is bail?'')])
   \<and> \<not> py_in LEGAL_DISCLAIMER ''General answer.''
   \<and> occurrences LEGAL_DISCLAIMER (''General answer.'' @ LEGAL_DISCLAIMER) = [15]"
proof -
  have n: "\<not> py_in LEGAL_DISCLAIMER ''General answer.''" by code_simp
  from disclaimer_count[OF bail_not_illegal sys_empty_run]
  obtain out where o: "''General answer.'' @ LEGAL_DISCLAIMER = out @ LEGAL_DISCLAIMER"
    "\<not> py_in LEGAL_DISCLAIMER out \<longrightarrow>
       occurrences LEGAL_DISCLAIMER (''General answer.'' @ LEGAL_DISCLAIMER) = [length out]"
    by auto
  from o(1) have "out = ''General answer.''" by simp
  with o(2) n have "occurrences LEGAL_DISCLAIMER (''General answer.'' @ LEGAL_DISCLAIMER) = [15]"
    by simp
  with bail_not_illegal sys_empty_run n show ?thesis by simp
qed

text \<open>
  A generation capability whose text already ends with the disclaimer gives an answer that
  contains it twice.
\<close>

theorem disclaimer_appended_twice:
  "\<not> is_illegal_query ''What is bail?''
   \<and> process_query sys_dup ''What is bail?'' =
      (Inr \<lparr>answer = ''Answer.'' @ LEGAL_DISCLAIMER @ LEGAL_DISCLAIMER, citations = [], has_context = False\<rparr>,
       [Retrieve ''What is bail?'', Generate (fallback_prompt ''What is bail?'')])
   \<and> occurrences LEGAL_DISCLAIMER (''Answer.'' @ LEGAL_DISCLAIMER @ LEGAL_DISCLAIMER) = [7, 77]"
proof -
  have "occurrences LEGAL_DISCLAIMER (''Answer.'' @ LEGAL_DISCLAIMER @ LEGAL_DISCLAIMER) = [7, 77]"
    by code_simp
  with bail_not_illegal sys_dup_run show ?thesis by simp
qed

lemma py_join_nonempty: "x \<noteq> [] \<Longrightarrow> py_join sep (x # xs) \<noteq> []"
  by (cases xs) simp_all

lemma context_part_nonempty: "context_part i doc \<noteq> []"
  by (simp add: context_part_def)

lemma format_context_nonempty:
  assumes "documents \<noteq> []"
  shows "format_context documents \<noteq> []"
proof -
  from assms have "zip [1..<Suc (length documents)] documents \<noteq> []"
    by (cases documents) (simp_all add: upt_conv_Cons del: upt_Suc)
  then obtain p ps where "zip [1..<Suc (length documents)] documents = p # ps"
    by (cases "zip [1..<Suc (length documents)] documents") auto
  then have "format_context documents =
      py_join ''\<newline>---\<newline>'' (context_part (fst p) (snd p) # map (\<lambda>(i, doc). context_part i doc) ps)"
    unfolding format_context_def by (simp add: case_prod_beta)
  then show ?thesis using py_join_nonempty[OF context_part_nonempty] by simp
qed

text \<open>
  When retrieval returns passages and the grounded text contains one of the two marker
  phrases, the generation capability is called again with the generic prompt, the second
  text is used and \<open>has_context\<close> is true; the citation list of the result is empty.
\<close>

lemma process_query_insufficient:
  assumes "\<not> is_illegal_query query"
    and "vector_store (vector_store_manager self) = Some vs"
    and "vs 10 (3 / 10) query = Inr documents" and "documents \<noteq> []"
    and "llm self 0 (prompt_template self (format_context documents) query) = Inr answer0"
    and "insufficient answer0"
    and "llm self 1 (fallback_prompt query) = Inr answer1"
  shows "process_query self query =
           (Inr \<lparr>answer = answer1 @ LEGAL_DISCLAIMER, citations = [], has_context = True\<rparr>,
            [Retrieve query, Generate (prompt_template self (format_context documents) query),
             Generate (fallback_prompt query)])"
  using assms format_context_nonempty[of documents]
  by (simp add: process_query_def retrieve_context_def get_retriever_def Let_def)

text \<open>
  Claim C3. A run with one retrieved passage and a grounded text that begins with
  \<open>I don't have enough\<close>: the second generated text is the answer and
  \<open>has_context\<close> is true, but the result has no citations, although
  \<open>_extract_citations\<close> yields one citation for the retrieved passage.
\<close>

theorem process_query_retry_drops_citations:
  "process_query sys_insuff ''What are the fundamental rights?'' =
     (Inr \<lparr>answer = ''General answer.'' @ LEGAL_DISCLAIMER, citations = [], has_context = True\<rparr>,
      [Retrieve ''What are the fundamental rights?'',
       Generate (tmpl (format_context [doc_const]) ''What are the fundamental rights?''),
       Generate (fallback_prompt ''What are the fundamental rights?'')])
   \<and> extract_citations [doc_const] =
       [\<lparr>source_title = MStr ''Constitution of India'', source = MStr ''constitution.pdf'',
         snippet = ''Article 14: Equality before law.'', sect = None, page = None\<rparr>]"
proof -
  have a: "\<not> is_illegal_query ''What are the fundamental rights?''" by code_simp
  have b: "insufficient ''I don't have enough verified information in my knowledge base to answer that precisely.''"
    by code_simp
  have c: "format_context [doc_const] \<noteq> []" by (rule format_context_nonempty) simp
  have "process_query sys_insuff ''What are the fundamental rights?'' =
     (Inr \<lparr>answer = ''General answer.'' @ LEGAL_DISCLAIMER, citations = [], has_context = True\<rparr>,
      [Retrieve ''What are the fundamental rights?'',
       Generate (tmpl (format_context [doc_const]) ''What are the fundamental rights?''),
       Generate (fallback_prompt ''What are the fundamental rights?'')])"
    using a b c
    by (simp add: process_query_def retrieve_context_def get_retriever_def sys_insuff_def
        vs_one_def llm_insuff_def)
  moreover have "extract_citations [doc_const] =
       [\<lparr>source_title = MStr ''Constitution of India'', source = MStr ''constitution.pdf'',
         snippet = ''Article 14: Equality before law.'', sect = None, page = None\<rparr>]"
    by (simp add: extract_citations_def make_citation_def doc_source_def content_snippet_def doc_const_def)
  ultimately show ?thesis by simp
qed

section \<open>Citation extraction\<close>

lemma extract_loop_fresh:
  "extract_loop docs cs seen = cs @ map make_citation (fresh_docs docs seen)"
  by (induction docs arbitrary: cs seen) simp_all

lemma extract_citations_fresh:
  "extract_citations docs = map make_citation (fresh_docs docs {})"
  by (simp add: extract_citations_def extract_loop_fresh)

lemma fresh_docs_subseq: "subseq (fresh_docs docs seen) docs"
  by (induction docs arbitrary: seen) (auto intro: list_emb_Cons)

lemma fresh_docs_subset: "set (fresh_docs docs seen) \<subseteq> set docs"
  by (induction docs arbitrary: seen) auto

lemma fresh_docs_keys:
  "source_id ` set (fresh_docs docs seen) = source_id ` set docs - seen"
  by (induction docs arbitrary: seen) auto

lemma fresh_docs_distinct: "distinct (map source_id (fresh_docs docs seen))"
proof (induction docs arbitrary: seen)
  case Nil then show ?case by simp
next
  case (Cons d docs)
  have "source_id d \<notin> source_id ` set (fresh_docs docs (insert (source_id d) seen))"
    unfolding fresh_docs_keys by simp
  with Cons show ?case by simp
qed

lemma extract_citations_subset: "set (extract_citations docs) \<subseteq> make_citation ` set docs"
  using fresh_docs_subset[of docs "{}"] by (auto simp: extract_citations_fresh)

text \<open>
  What the extraction computes: the citations of a subsequence of the documents, one for
  each key string \<open>source_id\<close> among them, in retrieval order.
\<close>

lemma extract_citations_dedup:
  "\<exists>ds. subseq ds documents \<and> extract_citations documents = map make_citation ds
        \<and> distinct (map source_id ds) \<and> source_id ` set ds = source_id ` set documents"
  using fresh_docs_subseq[of documents "{}"] fresh_docs_distinct[of documents "{}"]
    fresh_docs_keys[of documents "{}"] extract_citations_fresh[of documents] by auto

text \<open>
  Claim C4. The key is the string made of the source, an underscore and the first 50
  characters of the snippet, so two different pairs of source and snippet prefix can have
  one key. Here the passage with source \<open>a\<close> and text \<open>_b\<close> comes first, and the
  two passages with source \<open>a_\<close> and text \<open>b\<close> get no citation at all.
\<close>

theorem extract_citations_key_collision:
  "doc_source doc_a = MStr ''a'' \<and> doc_source doc_b = MStr ''a_''
   \<and> source_id doc_a = ''a__b'' \<and> source_id doc_b = ''a__b''
   \<and> extract_citations [doc_a, doc_b, doc_b] =
       [\<lparr>source_title = MStr ''a'', source = MStr ''a'', snippet = ''_b'', sect = None, page = None\<rparr>]
   \<and> filter (\<lambda>c. source c = MStr ''a_'' \<and> take 50 (snippet c) = ''b'')
        (extract_citations [doc_a, doc_b, doc_b]) = []"
  by (simp add: extract_citations_def source_id_def doc_source_def make_citation_def
      content_snippet_def doc_a_def doc_b_def)

lemma long1: "extract_citations [doc_long] = [make_citation doc_long]"
  by (simp add: extract_citations_def)

text \<open>
  Claim C7, as amended. The snippet of every citation is the text of a retrieved passage
  when that text has at most 200 characters, and otherwise its first 200 characters
  followed by three dots; so it has at most 203 characters, and exactly 203 when the text
  was truncated.
\<close>

theorem citation_snippet_length:
  assumes "c \<in> set (extract_citations documents)"
  shows "\<exists>doc\<in>set documents.
           snippet c = (if length (page_content doc) > 200
                        then take 200 (page_content doc) @ ''...'' else page_content doc)
           \<and> length (snippet c) \<le> 203
           \<and> (length (page_content doc) > 200 \<longrightarrow> length (snippet c) = 203)"
proof -
  from assms extract_citations_subset obtain doc where d: "doc \<in> set documents" "c = make_citation doc"
    by blast
  have "snippet c = content_snippet (page_content doc)" using d by (simp add: make_citation_def)
  then have "snippet c = (if length (page_content doc) > 200
                        then take 200 (page_content doc) @ ''...'' else page_content doc)
           \<and> length (snippet c) \<le> 203
           \<and> (length (page_content doc) > 200 \<longrightarrow> length (snippet c) = 203)"
    by (simp add: content_snippet_def)
  with d show ?thesis by blast
qed

theorem citation_snippet_length_witness:
  "make_citation doc_long \<in> set (extract_citations [doc_long])
   \<and> snippet (make_citation doc_long) = replicate 200 CHR ''x'' @ ''...''
   \<and> length (snippet (make_citation doc_long)) = 203"
proof -
  have m: "make_citation doc_long \<in> set (extract_citations [doc_long])" by (simp add: long1)
  from citation_snippet_length[OF m] m show ?thesis
    by (simp add: doc_long_def)
qed

text \<open>A passage of 201 characters has a snippet of 203 characters.\<close>

theorem snippet_longer_than_200:
  "map (\<lambda>c. length (snippet c)) (extract_citations [doc_long]) = [203]"
  unfolding long1 by (simp add: make_citation_def content_snippet_def doc_long_def)

end
